theory Spec2Isabelle
  imports Complex_Main
begin

section \<open>Cinema matcher: scripts against films\<close>

text \<open>
  A shallow embedding of \<^verbatim>\<open>scripts-scraper/cinema_matcher.py\<close>.

  A Python \<^verbatim>\<open>str\<close> is a sequence of Unicode code points, so a string is a list of
  natural numbers. The script uses four services of the Python runtime whose tables are
  not part of the repository: the character classes behind \<^verbatim>\<open>\w\<close>, \<^verbatim>\<open>\s\<close> and
  \<^verbatim>\<open>\d\<close> of the \<^verbatim>\<open>re\<close> module, \<^verbatim>\<open>str.lower\<close>, \<^verbatim>\<open>str.strip\<close>, and float arithmetic.
  On ASCII these are written out below. Above ASCII, and for the rounding of floats,
  they are taken as a parameter (\<open>runtime\<close>), so that every theorem quantified over the
  runtime holds for the real tables, whatever they are.
\<close>

subsection \<open>Strings and the runtime\<close>

type_synonym codepoint = nat
type_synonym pystr = "codepoint list"

text \<open>An ASCII literal, for readable examples.\<close>

definition str :: "string \<Rightarrow> pystr" where
  "str s = map of_char s"

record runtime =
  uni_isalnum :: "codepoint \<Rightarrow> bool"
  uni_isspace :: "codepoint \<Rightarrow> bool"
  uni_isdecimal :: "codepoint \<Rightarrow> bool"
  uni_lower :: "pystr \<Rightarrow> pystr"
  fround :: "rat \<Rightarrow> rat"

text \<open>
  \<open>uni_isalnum\<close>, \<open>uni_isspace\<close> and \<open>uni_isdecimal\<close> are the runtime's
  \<^verbatim>\<open>Py_UNICODE_ISALNUM\<close>, \<^verbatim>\<open>Py_UNICODE_ISSPACE\<close> and \<^verbatim>\<open>Py_UNICODE_ISDECIMAL\<close> on code
  points from 128 on; \<open>uni_lower\<close> is \<^verbatim>\<open>str.lower\<close> on a string that is not pure ASCII
  (it works on the whole string: lowercasing depends on context for the Greek sigma, and
  one code point may become several); \<open>fround\<close> rounds an exact result to a float.
\<close>

definition isascii :: "pystr \<Rightarrow> bool" where
  "isascii s = list_all (\<lambda>c. c < 128) s"

definition py_isalnum :: "runtime \<Rightarrow> codepoint \<Rightarrow> bool" where
  "py_isalnum rt c =
     (if c < 128 then (48 \<le> c \<and> c \<le> 57) \<or> (65 \<le> c \<and> c \<le> 90) \<or> (97 \<le> c \<and> c \<le> 122)
      else uni_isalnum rt c)"

text \<open>
  ASCII whitespace, for \<^verbatim>\<open>\s\<close> and for \<^verbatim>\<open>strip\<close> alike: tab to carriage return (9 to
  13), the four separators (28 to 31) and the space.
\<close>

definition py_isspace :: "runtime \<Rightarrow> codepoint \<Rightarrow> bool" where
  "py_isspace rt c =
     (if c < 128 then (9 \<le> c \<and> c \<le> 13) \<or> (28 \<le> c \<and> c \<le> 32)
      else uni_isspace rt c)"

definition py_isdecimal :: "runtime \<Rightarrow> codepoint \<Rightarrow> bool" where
  "py_isdecimal rt c = (if c < 128 then 48 \<le> c \<and> c \<le> 57 else uni_isdecimal rt c)"

text \<open>\<^verbatim>\<open>\w\<close> of a \<^verbatim>\<open>str\<close> pattern: alphanumeric, or the underscore.\<close>

definition isword :: "runtime \<Rightarrow> codepoint \<Rightarrow> bool" where
  "isword rt c = (py_isalnum rt c \<or> c = 95)"

definition ascii_lower :: "codepoint \<Rightarrow> codepoint" where
  "ascii_lower c = (if 65 \<le> c \<and> c \<le> 90 then c + 32 else c)"

definition str_lower :: "runtime \<Rightarrow> pystr \<Rightarrow> pystr" where
  "str_lower rt s = (if isascii s then map ascii_lower s else uni_lower rt s)"

text \<open>\<^verbatim>\<open>str.strip()\<close> with no argument: whitespace goes from both ends.\<close>

definition str_strip :: "runtime \<Rightarrow> pystr \<Rightarrow> pystr" where
  "str_strip rt s = rev (dropWhile (py_isspace rt) (rev (dropWhile (py_isspace rt) s)))"

subsection \<open>normalize_title\<close>

text \<open>
  \<^verbatim>\<open>-\d{4}$\<close> at the current position: a hyphen and four decimal digits, and then the end
  of the string. Without \<^verbatim>\<open>re.MULTILINE\<close>, \<^verbatim>\<open>$\<close> also matches just before a newline that
  ends the string.
\<close>

fun year_match :: "runtime \<Rightarrow> pystr \<Rightarrow> bool" where
  "year_match rt [h, d1, d2, d3, d4] =
     (h = 45 \<and> py_isdecimal rt d1 \<and> py_isdecimal rt d2 \<and> py_isdecimal rt d3 \<and> py_isdecimal rt d4)"
| "year_match rt [h, d1, d2, d3, d4, nl] =
     (h = 45 \<and> py_isdecimal rt d1 \<and> py_isdecimal rt d2 \<and> py_isdecimal rt d3 \<and> py_isdecimal rt d4
      \<and> nl = 10)"
| "year_match rt s = False"

text \<open>
  \<^verbatim>\<open>re.sub(r'-\d{4}$', '', title)\<close>: scan from the left; where the pattern matches, drop
  the five matched code points and go on behind them.
\<close>

fun sub_year :: "runtime \<Rightarrow> pystr \<Rightarrow> pystr" where
  "sub_year rt [] = []"
| "sub_year rt (c # cs) =
     (if year_match rt (c # cs) then sub_year rt (drop 4 cs) else c # sub_year rt cs)"

text \<open>\<^verbatim>\<open>re.sub(r'[^\w\s]', '', clean)\<close>: keep word characters and whitespace.\<close>

definition sub_special :: "runtime \<Rightarrow> pystr \<Rightarrow> pystr" where
  "sub_special rt s = filter (\<lambda>c. isword rt c \<or> py_isspace rt c) s"

definition normalize_title :: "runtime \<Rightarrow> pystr \<Rightarrow> pystr" where
  "normalize_title rt title = str_strip rt (str_lower rt (sub_special rt (sub_year rt title)))"

subsection \<open>Dictionaries\<close>

text \<open>
  A Python \<^verbatim>\<open>dict\<close> keeps its keys in the order of their first insertion; storing under
  a key that is present replaces the value where it stands. It is an association list
  with distinct keys.
\<close>

type_synonym pydict = "(pystr \<times> pystr) list"

datatype error = KeyError | ZeroDivisionError

fun dict_setitem :: "pydict \<Rightarrow> pystr \<Rightarrow> pystr \<Rightarrow> pydict" where
  "dict_setitem [] k v = [(k, v)]"
| "dict_setitem ((k', v') # d) k v =
     (if k' = k then (k, v) # d else (k', v') # dict_setitem d k v)"

definition dict_contains :: "pydict \<Rightarrow> pystr \<Rightarrow> bool" where
  "dict_contains d k = (k \<in> set (map fst d))"

definition dict_getitem :: "pydict \<Rightarrow> pystr \<Rightarrow> error + pystr" where
  "dict_getitem d k = (case map_of d k of None \<Rightarrow> Inl KeyError | Some v \<Rightarrow> Inr v)"

text \<open>
  \<^verbatim>\<open>{normalize_title(x): x for x in xs}\<close>: the comprehension stores the entries one by
  one, in the order of the list.
\<close>

definition build_index :: "runtime \<Rightarrow> pystr list \<Rightarrow> pydict" where
  "build_index rt xs = foldl (\<lambda>d x. dict_setitem d (normalize_title rt x) x) [] xs"

subsection \<open>create_matching_index\<close>

record match_record =
  script :: pystr
  film :: pystr
  normalized :: pystr

record stats_record =
  total_films :: nat
  total_scripts :: nat
  matches_found :: nat
  match_percentage :: rat

record results =
  matches :: "match_record list"
  unmatched_scripts :: "pystr list"
  unmatched_films :: "pystr list"
  stats :: stats_record

text \<open>
  The first loop, over \<^verbatim>\<open>script_index.items()\<close>, with the two lists it appends to as
  the state. \<^verbatim>\<open>film_index[norm_script]\<close> raises \<^verbatim>\<open>KeyError\<close> on a missing key.
\<close>

fun scripts_loop ::
  "pydict \<Rightarrow> (pystr \<times> pystr) list \<Rightarrow> match_record list \<times> pystr list
    \<Rightarrow> error + match_record list \<times> pystr list" where
  "scripts_loop film_index [] st = Inr st"
| "scripts_loop film_index ((norm_script, original_script) # items) (ms, us) =
     (if dict_contains film_index norm_script then
        (case dict_getitem film_index norm_script of
           Inl e \<Rightarrow> Inl e
         | Inr f \<Rightarrow>
             scripts_loop film_index items
               (ms @ [\<lparr>script = original_script, film = f, normalized = norm_script\<rparr>], us))
      else scripts_loop film_index items (ms, us @ [original_script]))"

text \<open>The second loop, over \<^verbatim>\<open>film_index.items()\<close>.\<close>

fun films_loop :: "pydict \<Rightarrow> (pystr \<times> pystr) list \<Rightarrow> pystr list \<Rightarrow> pystr list" where
  "films_loop script_index [] uf = uf"
| "films_loop script_index ((norm_film, original_film) # items) uf =
     (if \<not> dict_contains script_index norm_film
      then films_loop script_index items (uf @ [original_film])
      else films_loop script_index items uf)"

text \<open>
  \<^verbatim>\<open>a / b\<close> on two \<^verbatim>\<open>int\<close>s: the correctly rounded quotient, and \<^verbatim>\<open>ZeroDivisionError\<close>
  when \<open>b\<close> is zero. \<^verbatim>\<open>x * 100\<close> on a float: the rounded product.
\<close>

definition int_truediv :: "runtime \<Rightarrow> nat \<Rightarrow> nat \<Rightarrow> error + rat" where
  "int_truediv rt a b =
     (if b = 0 then Inl ZeroDivisionError else Inr (fround rt (of_nat a / of_nat b)))"

definition float_mul :: "runtime \<Rightarrow> rat \<Rightarrow> rat \<Rightarrow> rat" where
  "float_mul rt x y = fround rt (x * y)"

text \<open>
  \<^verbatim>\<open>(len(matches) / len(scripts)) * 100 if scripts else 0\<close>: the condition is evaluated
  first, and a list is true when it is not empty.
\<close>

definition percentage :: "runtime \<Rightarrow> nat \<Rightarrow> pystr list \<Rightarrow> error + rat" where
  "percentage rt n_matches scripts =
     (if scripts \<noteq> [] then
        (case int_truediv rt n_matches (length scripts) of
           Inl e \<Rightarrow> Inl e
         | Inr q \<Rightarrow> Inr (float_mul rt q 100))
      else Inr 0)"

text \<open>
  \<^verbatim>\<open>create_matching_index\<close>, from the two lists that \<^verbatim>\<open>load_films\<close> and \<^verbatim>\<open>load_scripts\<close>
  return (reading them is input, and the printing is left out).
\<close>

definition create_matching_index :: "runtime \<Rightarrow> pystr list \<Rightarrow> pystr list \<Rightarrow> error + results" where
  "create_matching_index rt films scripts =
     (let film_index = build_index rt films;
          script_index = build_index rt scripts
      in case scripts_loop film_index script_index ([], []) of
           Inl e \<Rightarrow> Inl e
         | Inr (ms, us) \<Rightarrow>
             (let uf = films_loop script_index film_index []
              in case percentage rt (length ms) scripts of
                   Inl e \<Rightarrow> Inl e
                 | Inr p \<Rightarrow>
                     Inr \<lparr>matches = ms, unmatched_scripts = us, unmatched_films = uf,
                          stats = \<lparr>total_films = length films, total_scripts = length scripts,
                                   matches_found = length ms, match_percentage = p\<rparr>\<rparr>))"

subsection \<open>generate_report\<close>

record report =
  timestamp :: pystr
  summary :: stats_record
  report_matches :: "match_record list"
  sample_unmatched_scripts :: "pystr list"
  sample_unmatched_films :: "pystr list"

text \<open>
  The object that \<^verbatim>\<open>generate_report\<close> hands to \<^verbatim>\<open>json.dump\<close>. \<open>cwd\<close> is
  \<^verbatim>\<open>str(Path().absolute())\<close>, which the environment gives. A slice \<^verbatim>\<open>xs[:10]\<close> is the
  first ten elements, or all of them when there are fewer.
\<close>

definition generate_report :: "pystr \<Rightarrow> results \<Rightarrow> report" where
  "generate_report cwd res =
     \<lparr>timestamp = cwd,
      summary = stats res,
      report_matches = take 10 (matches res),
      sample_unmatched_scripts = take 10 (unmatched_scripts res),
      sample_unmatched_films = take 10 (unmatched_films res)\<rparr>"

subsection \<open>Instances of the runtime\<close>

text \<open>
  Four entries of the Unicode tables, for evaluation: U+0130 (LATIN CAPITAL LETTER I WITH
  DOT ABOVE) is a letter, and its lowercase is the two code points U+0069 U+0307;
  U+0307 (COMBINING DOT ABOVE) is a nonspacing mark, neither alphanumeric nor
  whitespace nor a digit, and has no case; U+00C9 (LATIN CAPITAL LETTER E WITH ACUTE) is
  a letter with the lowercase U+00E9, which is a letter and its own lowercase.
  \<open>sample_runtime\<close> holds these four entries and computes floats exactly; on other
  code points above ASCII it is a placeholder, and no evaluation below reads it there.
\<close>

definition sample_lower :: "codepoint \<Rightarrow> pystr" where
  "sample_lower c =
     (if c = 304 then [105, 775] else if c = 201 then [233] else [ascii_lower c])"

definition sample_runtime :: runtime where
  "sample_runtime =
     \<lparr>uni_isalnum = (\<lambda>c. c = 304 \<or> c = 201 \<or> c = 233),
      uni_isspace = (\<lambda>c. False),
      uni_isdecimal = (\<lambda>c. False),
      uni_lower = (\<lambda>s. concat (map sample_lower s)),
      fround = (\<lambda>x. x)\<rparr>"

subsection \<open>What the runtime is known to do\<close>

text \<open>
  Rounding to the nearest float is monotone, and 0, 1 and 100 are floats, so rounding
  leaves them as they are. Nothing else is assumed of \<open>fround\<close>, and this much only
  where a theorem says so.
\<close>

definition float_rounding :: "runtime \<Rightarrow> bool" where
  "float_rounding rt \<longleftrightarrow>
     (\<forall>x y. x \<le> y \<longrightarrow> fround rt x \<le> fround rt y)
     \<and> fround rt 0 = 0 \<and> fround rt 1 = 1 \<and> fround rt 100 = 100"

subsection \<open>What a lookup mapping keeps\<close>

text \<open>
  The lookup mapping of a list keeps, for each normalized key, one identifier: \<open>x\<close> is
  kept when it is in the list and is the last of the list's identifiers with its key.
\<close>

definition keeps :: "runtime \<Rightarrow> pystr list \<Rightarrow> pystr \<Rightarrow> bool" where
  "keeps rt xs x \<longleftrightarrow>
     x \<in> set xs \<and> last (filter (\<lambda>y. normalize_title rt y = normalize_title rt x) xs) = x"

section \<open>Properties\<close>

subsection \<open>Dictionaries\<close>

lemma map_of_dict_setitem: "map_of (dict_setitem d k v) = (map_of d)(k \<mapsto> v)"
  by (induction d k v rule: dict_setitem.induct) auto

lemma keys_dict_setitem: "fst ` set (dict_setitem d k v) = insert k (fst ` set d)"
  by (induction d k v rule: dict_setitem.induct) auto

lemma distinct_dict_setitem:
  "distinct (map fst d) \<Longrightarrow> distinct (map fst (dict_setitem d k v))"
  by (induction d k v rule: dict_setitem.induct) (auto simp: keys_dict_setitem)

lemma set_dict_setitem: "set (dict_setitem d k v) \<subseteq> insert (k, v) (set d)"
  by (induction d k v rule: dict_setitem.induct) auto

lemma dict_getitem_contains:
  "dict_contains d k \<Longrightarrow> \<exists>v. dict_getitem d k = Inr v \<and> (k, v) \<in> set d"
proof -
  assume "dict_contains d k"
  then have "k \<in> fst ` set d" by (simp add: dict_contains_def)
  then obtain v where "map_of d k = Some v"
    by (cases "map_of d k") (auto simp: map_of_eq_None_iff)
  then show ?thesis
    by (auto simp: dict_getitem_def dest: map_of_SomeD)
qed

lemma dict_getitem_the:
  "dict_contains d k \<Longrightarrow> dict_getitem d k = Inr (the (map_of d k))"
  using dict_getitem_contains [of d k] by (auto simp: dict_getitem_def split: option.splits)

subsection \<open>The lookup mappings\<close>

lemma build_index_Nil: "build_index rt [] = []"
  by (simp add: build_index_def)

lemma build_index_snoc:
  "build_index rt (xs @ [x]) = dict_setitem (build_index rt xs) (normalize_title rt x) x"
  by (simp add: build_index_def)

lemma keys_build_index: "fst ` set (build_index rt xs) = normalize_title rt ` set xs"
  by (induction xs rule: rev_induct) (simp_all add: build_index_Nil build_index_snoc keys_dict_setitem)

lemma distinct_build_index: "distinct (map fst (build_index rt xs))"
  by (induction xs rule: rev_induct) (auto simp: build_index_Nil build_index_snoc distinct_dict_setitem)

lemma build_index_entry:
  "(k, v) \<in> set (build_index rt xs) \<Longrightarrow> k = normalize_title rt v \<and> v \<in> set xs"
proof (induction xs rule: rev_induct)
  case Nil
  then show ?case by (simp add: build_index_Nil)
next
  case (snoc x xs)
  from snoc.prems have "(k, v) = (normalize_title rt x, x) \<or> (k, v) \<in> set (build_index rt xs)"
    using set_dict_setitem [of "build_index rt xs" "normalize_title rt x" x]
    by (auto simp: build_index_snoc)
  with snoc.IH show ?case by auto
qed

lemma map_of_build_index:
  "map_of (build_index rt xs) k =
     (if filter (\<lambda>x. normalize_title rt x = k) xs = [] then None
      else Some (last (filter (\<lambda>x. normalize_title rt x = k) xs)))"
proof (induction xs rule: rev_induct)
  case Nil
  then show ?case by (simp add: build_index_Nil)
next
  case (snoc x xs)
  show ?case
  proof (cases "normalize_title rt x = k")
    case True
    then show ?thesis
      by (simp add: build_index_snoc map_of_dict_setitem)
  next
    case False
    then show ?thesis
      using snoc.IH by (simp add: build_index_snoc map_of_dict_setitem)
  qed
qed

lemma length_build_index: "length (build_index rt xs) = card (normalize_title rt ` set xs)"
proof -
  have "length (build_index rt xs) = length (map fst (build_index rt xs))" by simp
  also have "\<dots> = card (set (map fst (build_index rt xs)))"
    using distinct_build_index [of rt xs] by (simp only: distinct_card)
  finally show ?thesis by (simp add: keys_build_index)
qed

lemma length_build_index_le: "length (build_index rt xs) \<le> length xs"
proof -
  have "card (normalize_title rt ` set xs) \<le> card (set xs)"
    by (rule card_image_le) simp
  also have "\<dots> \<le> length xs"
    by (rule card_length)
  finally show ?thesis
    by (simp only: length_build_index)
qed

lemma build_index_keys_of_values:
  "map fst (build_index rt xs) = map (normalize_title rt \<circ> snd) (build_index rt xs)"
  by (rule map_cong [OF refl]) (auto dest: build_index_entry)

lemma distinct_build_index_values: "distinct (map snd (build_index rt xs))"
proof -
  let ?d = "build_index rt xs"
  have "distinct (map (normalize_title rt \<circ> snd) ?d)"
    using distinct_build_index [of rt xs] by (simp only: build_index_keys_of_values)
  then have "distinct ?d" and "inj_on (normalize_title rt \<circ> snd) (set ?d)"
    by (simp_all only: distinct_map)
  then have "distinct ?d" and "inj_on snd (set ?d)"
    by (auto dest: inj_on_imageI2)
  then show ?thesis
    by (simp only: distinct_map)
qed

lemma build_index_entry_iff:
  "(k, v) \<in> set (build_index rt xs) \<longleftrightarrow> k = normalize_title rt v \<and> keeps rt xs v"
proof
  assume e: "(k, v) \<in> set (build_index rt xs)"
  then have k: "k = normalize_title rt v" and v: "v \<in> set xs"
    by (simp_all add: build_index_entry)
  from e have "map_of (build_index rt xs) k = Some v"
    using distinct_build_index [of rt xs] by simp
  then have "last (filter (\<lambda>y. normalize_title rt y = k) xs) = v"
    by (simp add: map_of_build_index split: if_splits)
  with k v show "k = normalize_title rt v \<and> keeps rt xs v"
    by (simp add: keeps_def)
next
  assume "k = normalize_title rt v \<and> keeps rt xs v"
  then have k: "k = normalize_title rt v" and v: "v \<in> set xs"
    and l: "last (filter (\<lambda>y. normalize_title rt y = k) xs) = v"
    by (simp_all add: keeps_def)
  from k v have "filter (\<lambda>y. normalize_title rt y = k) xs \<noteq> []"
    by (auto simp: filter_empty_conv)
  with l have "map_of (build_index rt xs) k = Some v"
    by (simp add: map_of_build_index)
  then show "(k, v) \<in> set (build_index rt xs)"
    by (rule map_of_SomeD)
qed

lemma build_index_value_iff: "v \<in> snd ` set (build_index rt xs) \<longleftrightarrow> keeps rt xs v"
proof
  assume "v \<in> snd ` set (build_index rt xs)"
  then obtain k where "(k, v) \<in> set (build_index rt xs)" by auto
  then show "keeps rt xs v" by (simp add: build_index_entry_iff)
next
  assume "keeps rt xs v"
  then have "(normalize_title rt v, v) \<in> set (build_index rt xs)"
    by (simp add: build_index_entry_iff)
  then show "v \<in> snd ` set (build_index rt xs)" by force
qed

subsection \<open>The two loops and the result\<close>

lemma scripts_loop_eq:
  "scripts_loop fi items (ms, us) =
     Inr (ms @ map (\<lambda>(k, v). \<lparr>script = v, film = the (map_of fi k), normalized = k\<rparr>)
                 (filter (\<lambda>(k, v). dict_contains fi k) items),
          us @ map snd (filter (\<lambda>(k, v). \<not> dict_contains fi k) items))"
proof (induction items arbitrary: ms us)
  case Nil
  then show ?case by simp
next
  case (Cons kv items)
  obtain k v where kv: "kv = (k, v)" by (cases kv)
  show ?case
  proof (cases "dict_contains fi k")
    case True
    then show ?thesis
      using Cons.IH by (simp add: kv dict_getitem_the)
  next
    case False
    then show ?thesis
      using Cons.IH by (simp add: kv)
  qed
qed

lemma films_loop_eq:
  "films_loop si items uf = uf @ map snd (filter (\<lambda>(k, v). \<not> dict_contains si k) items)"
  by (induction si items uf rule: films_loop.induct) simp_all

lemma percentage_eq:
  "percentage rt n scripts =
     Inr (if scripts = [] then 0
          else fround rt (fround rt (of_nat n / of_nat (length scripts)) * 100))"
  by (simp add: percentage_def int_truediv_def float_mul_def)

lemma create_matching_index_eq:
  "create_matching_index rt films scripts =
     Inr \<lparr>matches =
            map (\<lambda>(k, v). \<lparr>script = v, film = the (map_of (build_index rt films) k), normalized = k\<rparr>)
              (filter (\<lambda>(k, v). dict_contains (build_index rt films) k) (build_index rt scripts)),
          unmatched_scripts =
            map snd (filter (\<lambda>(k, v). \<not> dict_contains (build_index rt films) k) (build_index rt scripts)),
          unmatched_films =
            map snd (filter (\<lambda>(k, v). \<not> dict_contains (build_index rt scripts) k) (build_index rt films)),
          stats =
            \<lparr>total_films = length films, total_scripts = length scripts,
             matches_found =
               length (filter (\<lambda>(k, v). dict_contains (build_index rt films) k) (build_index rt scripts)),
             match_percentage =
               (if scripts = [] then 0
                else fround rt (fround rt
                  (of_nat (length (filter (\<lambda>(k, v). dict_contains (build_index rt films) k)
                     (build_index rt scripts))) / of_nat (length scripts)) * 100))\<rparr>\<rparr>"
  by (simp add: create_matching_index_def scripts_loop_eq films_loop_eq percentage_eq Let_def)

lemma create_matching_index_returns:
  obtains r where "create_matching_index rt films scripts = Inr r"
  by (simp add: create_matching_index_eq)

lemma matches_eq:
  "create_matching_index rt films scripts = Inr r \<Longrightarrow>
     matches r =
       map (\<lambda>(k, v). \<lparr>script = v, film = the (map_of (build_index rt films) k), normalized = k\<rparr>)
         (filter (\<lambda>(k, v). dict_contains (build_index rt films) k) (build_index rt scripts))"
  by (auto simp: create_matching_index_eq)

lemma unmatched_scripts_eq:
  "create_matching_index rt films scripts = Inr r \<Longrightarrow>
     unmatched_scripts r =
       map snd (filter (\<lambda>(k, v). \<not> dict_contains (build_index rt films) k) (build_index rt scripts))"
  by (auto simp: create_matching_index_eq)

lemma unmatched_films_eq:
  "create_matching_index rt films scripts = Inr r \<Longrightarrow>
     unmatched_films r =
       map snd (filter (\<lambda>(k, v). \<not> dict_contains (build_index rt scripts) k) (build_index rt films))"
  by (auto simp: create_matching_index_eq)

subsection \<open>Evaluated runs\<close>

lemma normalize_Matrix_1999: "normalize_title rt (str ''Matrix-1999'') = str ''matrix''"
  by (simp add: normalize_title_def str_def sub_special_def str_lower_def str_strip_def isascii_def
      isword_def py_isalnum_def py_isspace_def py_isdecimal_def ascii_lower_def)

lemma normalize_matrix: "normalize_title rt (str ''matrix'') = str ''matrix''"
  by (simp add: normalize_title_def str_def sub_special_def str_lower_def str_strip_def isascii_def
      isword_def py_isalnum_def py_isspace_def py_isdecimal_def ascii_lower_def)

lemma matrix_run:
  "create_matching_index rt [str ''Matrix-1999''] [str ''matrix''] =
     Inr \<lparr>matches =
            [\<lparr>script = str ''matrix'', film = str ''Matrix-1999'', normalized = str ''matrix''\<rparr>],
          unmatched_scripts = [],
          unmatched_films = [],
          stats = \<lparr>total_films = 1, total_scripts = 1, matches_found = 1,
                   match_percentage = fround rt (fround rt 1 * 100)\<rparr>\<rparr>"
  by (simp add: create_matching_index_def build_index_def normalize_Matrix_1999 normalize_matrix
      dict_contains_def dict_getitem_def percentage_def int_truediv_def float_mul_def)

lemma example_run:
  "create_matching_index sample_runtime
     [str ''Matrix-1999'', str ''Matrix-2003'', str ''Alien-1979'']
     [str ''Matrix'', str ''matrix'', str ''Heat'']
   = Inr \<lparr>matches =
            [\<lparr>script = str ''matrix'', film = str ''Matrix-2003'', normalized = str ''matrix''\<rparr>],
          unmatched_scripts = [str ''Heat''],
          unmatched_films = [str ''Alien-1979''],
          stats = \<lparr>total_films = 3, total_scripts = 3, matches_found = 1,
                   match_percentage = 100 / 3\<rparr>\<rparr>"
  by code_simp

lemma example_script_index:
  "build_index sample_runtime [str ''Matrix'', str ''matrix'', str ''Heat'']
   = [(str ''matrix'', str ''matrix''), (str ''heat'', str ''Heat'')]"
  by code_simp

lemma example_film_index:
  "build_index sample_runtime [str ''Matrix-1999'', str ''Matrix-2003'', str ''Alien-1979'']
   = [(str ''matrix'', str ''Matrix-2003''), (str ''alien'', str ''Alien-1979'')]"
  by code_simp

lemma float_rounding_sample: "float_rounding sample_runtime"
  by (simp add: float_rounding_def sample_runtime_def)

subsection \<open>Normalization\<close>

lemma hyphen_not_kept: "\<not> (isword rt 45 \<or> py_isspace rt 45)"
  by (simp add: isword_def py_isalnum_def py_isspace_def)

lemma year_match_hd: "year_match rt s \<Longrightarrow> hd s = 45"
  by (induction rt s rule: year_match.induct) simp_all

lemma year_match_hyphen: "year_match rt (c # cs) \<Longrightarrow> c = 45"
  using year_match_hd [of rt "c # cs"] by simp

lemma sub_year_no_hyphen: "45 \<notin> set s \<Longrightarrow> sub_year rt s = s"
proof (induction s)
  case Nil
  then show ?case by simp
next
  case (Cons c cs)
  then have "\<not> year_match rt (c # cs)"
    using year_match_hyphen [of rt c cs] by auto
  with Cons show ?case by simp
qed

lemma set_sub_year: "set (sub_year rt s) \<subseteq> set s"
proof (induction rt s rule: sub_year.induct)
  case (1 rt)
  then show ?case by simp
next
  case (2 rt c cs)
  show ?case
  proof (cases "year_match rt (c # cs)")
    case True
    then have "set (sub_year rt (c # cs)) \<subseteq> set (drop 4 cs)"
      using 2 by simp
    also have "\<dots> \<subseteq> set cs" by (rule set_drop_subset)
    finally show ?thesis by auto
  next
    case False
    then show ?thesis using 2 by auto
  qed
qed

lemma set_str_strip: "set (str_strip rt s) \<subseteq> set s"
proof
  fix c
  assume "c \<in> set (str_strip rt s)"
  then have "c \<in> set (dropWhile (py_isspace rt) (rev (dropWhile (py_isspace rt) s)))"
    by (simp add: str_strip_def)
  then have "c \<in> set (rev (dropWhile (py_isspace rt) s))"
    by (rule set_dropWhileD)
  then show "c \<in> set s"
    by (auto dest: set_dropWhileD)
qed

lemma dropWhile_rstrip:
  assumes "e = [] \<or> \<not> P (hd e)"
  shows "dropWhile P (rev (dropWhile P (rev e))) = rev (dropWhile P (rev e))"
proof (cases e)
  case Nil
  then show ?thesis by simp
next
  case (Cons y ys)
  with assms have ny: "\<not> P y" by simp
  then have "dropWhile P (rev (y # ys)) = dropWhile P (rev ys) @ [y]"
    by (simp add: dropWhile_append)
  then have "rev (dropWhile P (rev (y # ys))) = y # rev (dropWhile P (rev ys))"
    by simp
  with ny show ?thesis by (simp add: Cons)
qed

lemma dropWhile_rev_dropWhile:
  "dropWhile P (rev (dropWhile P (rev (dropWhile P xs)))) = rev (dropWhile P (rev (dropWhile P xs)))"
proof (rule dropWhile_rstrip)
  show "dropWhile P xs = [] \<or> \<not> P (hd (dropWhile P xs))"
    using hd_dropWhile [of P xs] by blast
qed

lemma str_strip_idem: "str_strip rt (str_strip rt s) = str_strip rt s"
  by (simp add: str_strip_def dropWhile_rev_dropWhile)

lemma normalize_title_fixed:
  assumes kept: "\<forall>c \<in> set n. isword rt c \<or> py_isspace rt c"
    and lower: "str_lower rt n = n"
    and strip: "str_strip rt n = n"
  shows "normalize_title rt n = n"
proof -
  from kept have "45 \<notin> set n"
    using hyphen_not_kept [of rt] by blast
  then have "sub_year rt n = n"
    by (rule sub_year_no_hyphen)
  moreover from kept have "sub_special rt n = n"
    by (simp add: sub_special_def)
  ultimately show ?thesis
    using lower strip by (simp add: normalize_title_def)
qed

lemma ascii_lower_kept:
  assumes "c < 128" and "isword rt c \<or> py_isspace rt c"
  shows "ascii_lower c < 128 \<and> (isword rt (ascii_lower c) \<or> py_isspace rt (ascii_lower c))
     \<and> ascii_lower (ascii_lower c) = ascii_lower c"
  using assms by (auto simp: ascii_lower_def isword_def py_isalnum_def py_isspace_def)

lemma normalize_title_ascii:
  assumes "isascii s"
  shows "\<forall>c \<in> set (normalize_title rt s).
           c < 128 \<and> (isword rt c \<or> py_isspace rt c) \<and> ascii_lower c = c"
proof -
  let ?b = "sub_special rt (sub_year rt s)"
  from assms have s: "\<forall>c \<in> set s. c < 128"
    by (simp add: isascii_def list_all_iff)
  have b: "\<forall>c \<in> set ?b. c < 128 \<and> (isword rt c \<or> py_isspace rt c)"
    using s set_sub_year [of rt s] by (auto simp: sub_special_def)
  then have "isascii ?b"
    by (simp add: isascii_def list_all_iff)
  then have "str_lower rt ?b = map ascii_lower ?b"
    by (simp add: str_lower_def)
  then have "\<forall>c \<in> set (str_lower rt ?b).
      c < 128 \<and> (isword rt c \<or> py_isspace rt c) \<and> ascii_lower c = c"
    using b ascii_lower_kept [of _ rt] by auto
  then show ?thesis
    using set_str_strip [of rt "str_lower rt ?b"] by (auto simp: normalize_title_def)
qed

text \<open>
  On ASCII the two conditions of the next theorem always hold: the key has only word
  characters and whitespace, and no upper case.
\<close>

lemma normalize_title_ascii_idem:
  assumes "isascii s"
  shows "normalize_title rt (normalize_title rt s) = normalize_title rt s"
proof (rule normalize_title_fixed)
  let ?n = "normalize_title rt s"
  from normalize_title_ascii [OF assms, of rt]
  have n: "\<forall>c \<in> set ?n. c < 128 \<and> (isword rt c \<or> py_isspace rt c) \<and> ascii_lower c = c" .
  then show "\<forall>c \<in> set ?n. isword rt c \<or> py_isspace rt c" by blast
  from n have "isascii ?n"
    by (simp add: isascii_def list_all_iff)
  moreover from n have "map ascii_lower ?n = ?n"
    by (simp add: map_idI)
  ultimately show "str_lower rt ?n = ?n"
    by (simp add: str_lower_def)
  show "str_strip rt ?n = ?n"
    by (simp add: normalize_title_def str_strip_idem)
qed

text \<open>
  Claim C3, as amended. Normalizing a normalized key gives the same key whenever the
  key has only word characters and whitespace and is its own lowercase form, on any
  string, ASCII or not. The year suffix, the special characters and the whitespace at
  the ends never stand in the way: the key has no hyphen left and is already stripped.
  Only \<^verbatim>\<open>lower()\<close> can, by producing a character that is not a word character.
\<close>

theorem normalize_title_idempotent_stable:
  assumes "\<forall>c \<in> set (normalize_title rt s). isword rt c \<or> py_isspace rt c"
    and "str_lower rt (normalize_title rt s) = normalize_title rt s"
  shows "normalize_title rt (normalize_title rt s) = normalize_title rt s"
proof (rule normalize_title_fixed)
  show "\<forall>c \<in> set (normalize_title rt s). isword rt c \<or> py_isspace rt c"
    by (rule assms(1))
  show "str_lower rt (normalize_title rt s) = normalize_title rt s"
    by (rule assms(2))
  show "str_strip rt (normalize_title rt s) = normalize_title rt s"
    by (simp add: normalize_title_def str_strip_idem)
qed

text \<open>
  The theorem at \<^verbatim>\<open>Am\<close>, U+00E9, \<^verbatim>\<open>lie \<close>, U+00C9, \<^verbatim>\<open>t\<close>, U+00E9, \<^verbatim>\<open>-2001\<close>, which is
  not ASCII; its key is \<^verbatim>\<open>am\<close>, U+00E9, \<^verbatim>\<open>lie \<close>, U+00E9, \<^verbatim>\<open>t\<close>, U+00E9.
\<close>

theorem normalize_title_idempotent_stable_witness:
  "\<not> isascii (str ''Am'' @ [233] @ str ''lie '' @ [201] @ str ''t'' @ [233] @ str ''-2001'')
   \<and> normalize_title sample_runtime
        (str ''Am'' @ [233] @ str ''lie '' @ [201] @ str ''t'' @ [233] @ str ''-2001'')
       = str ''am'' @ [233] @ str ''lie '' @ [233] @ str ''t'' @ [233]
   \<and> list_all (\<lambda>c. isword sample_runtime c \<or> py_isspace sample_runtime c)
        (str ''am'' @ [233] @ str ''lie '' @ [233] @ str ''t'' @ [233])
   \<and> str_lower sample_runtime (str ''am'' @ [233] @ str ''lie '' @ [233] @ str ''t'' @ [233])
       = str ''am'' @ [233] @ str ''lie '' @ [233] @ str ''t'' @ [233]
   \<and> normalize_title sample_runtime (str ''am'' @ [233] @ str ''lie '' @ [233] @ str ''t'' @ [233])
       = str ''am'' @ [233] @ str ''lie '' @ [233] @ str ''t'' @ [233]"
proof -
  let ?s = "str ''Am'' @ [233] @ str ''lie '' @ [201] @ str ''t'' @ [233] @ str ''-2001''"
  let ?n = "str ''am'' @ [233] @ str ''lie '' @ [233] @ str ''t'' @ [233]"
  have a: "\<not> isascii ?s"
    by code_simp
  have n: "normalize_title sample_runtime ?s = ?n"
    by code_simp
  have k: "list_all (\<lambda>c. isword sample_runtime c \<or> py_isspace sample_runtime c) ?n"
    by code_simp
  have l: "str_lower sample_runtime ?n = ?n"
    by code_simp
  from k have k': "\<forall>c \<in> set (normalize_title sample_runtime ?s).
      isword sample_runtime c \<or> py_isspace sample_runtime c"
    by (simp only: n list_all_iff)
  from l have l': "str_lower sample_runtime (normalize_title sample_runtime ?s)
      = normalize_title sample_runtime ?s"
    by (simp only: n)
  from normalize_title_idempotent_stable [OF k' l']
  have "normalize_title sample_runtime ?n = ?n"
    by (simp only: n)
  with a n k l show ?thesis by (intro conjI)
qed

text \<open>
  Claim C3 as stated fails at the title that is the one letter U+0130. It is a word
  character and stays; \<^verbatim>\<open>lower()\<close> turns it into \<^verbatim>\<open>i\<close> and the combining dot U+0307.
  The second normalization removes the dot, which is not a word character: the first
  condition of the theorem above does not hold of this key.
\<close>

theorem normalize_title_idempotent_counterexample:
  "normalize_title sample_runtime [304] = [105, 775]
   \<and> normalize_title sample_runtime (normalize_title sample_runtime [304]) = [105]
   \<and> normalize_title sample_runtime (normalize_title sample_runtime [304])
       \<noteq> normalize_title sample_runtime [304]"
  by code_simp

subsection \<open>Collisions in a lookup mapping\<close>

text \<open>
  Claim C7. Last one wins: in the lookup mapping built from a list, the normalized key
  of any identifier of the list is associated with the last identifier of the list that
  has this key. So of two identifiers with the same key, the earlier one is overwritten.
\<close>

theorem build_index_last_wins:
  assumes "x \<in> set xs"
  shows "dict_getitem (build_index rt xs) (normalize_title rt x) =
     Inr (last (filter (\<lambda>y. normalize_title rt y = normalize_title rt x) xs))"
proof -
  from assms have "filter (\<lambda>y. normalize_title rt y = normalize_title rt x) xs \<noteq> []"
    by (auto simp: filter_empty_conv)
  then show ?thesis
    by (simp add: dict_getitem_def map_of_build_index)
qed

theorem build_index_last_wins_witness:
  "str ''Matrix'' \<in> set [str ''Matrix'', str ''matrix'', str ''Heat'']
   \<and> str ''Matrix'' \<noteq> str ''matrix''
   \<and> normalize_title sample_runtime (str ''Matrix'') = normalize_title sample_runtime (str ''matrix'')
   \<and> dict_getitem (build_index sample_runtime [str ''Matrix'', str ''matrix'', str ''Heat''])
        (normalize_title sample_runtime (str ''Matrix'')) = Inr (str ''matrix'')"
proof -
  let ?xs = "[str ''Matrix'', str ''matrix'', str ''Heat'']"
  have m: "str ''Matrix'' \<in> set ?xs" by simp
  have n: "normalize_title sample_runtime (str ''Matrix'') = str ''matrix''"
    "normalize_title sample_runtime (str ''matrix'') = str ''matrix''"
    "normalize_title sample_runtime (str ''Heat'') = str ''heat''"
    by code_simp+
  have d: "str ''Matrix'' \<noteq> str ''matrix''" "str ''heat'' \<noteq> str ''matrix''"
    by (simp_all add: str_def)
  from build_index_last_wins [OF m, of sample_runtime] n d
  show ?thesis by simp
qed

subsection \<open>Match records\<close>

text \<open>
  Claim C8. Every match record carries the normalized key of its script and of its
  film, and this key is present in both lookup mappings, where it leads to the script
  and to the film of the record.
\<close>

theorem match_record_keys:
  "\<exists>r. create_matching_index rt films scripts = Inr r
     \<and> (\<forall>m \<in> set (matches r).
           normalized m = normalize_title rt (script m)
         \<and> normalized m = normalize_title rt (film m)
         \<and> dict_contains (build_index rt scripts) (normalized m)
         \<and> dict_contains (build_index rt films) (normalized m)
         \<and> dict_getitem (build_index rt scripts) (normalized m) = Inr (script m)
         \<and> dict_getitem (build_index rt films) (normalized m) = Inr (film m))"
proof -
  let ?fi = "build_index rt films" and ?si = "build_index rt scripts"
  let ?mk = "\<lambda>(k, v). \<lparr>script = v, film = the (map_of ?fi k), normalized = k\<rparr>"
  let ?ms = "map ?mk (filter (\<lambda>(k, v). dict_contains ?fi k) ?si)"
  have each: "normalized m = normalize_title rt (script m)
         \<and> normalized m = normalize_title rt (film m)
         \<and> dict_contains ?si (normalized m)
         \<and> dict_contains ?fi (normalized m)
         \<and> dict_getitem ?si (normalized m) = Inr (script m)
         \<and> dict_getitem ?fi (normalized m) = Inr (film m)" if "m \<in> set ?ms" for m
  proof -
    from that obtain k v where kv: "(k, v) \<in> set ?si" and c: "dict_contains ?fi k"
      and m: "m = \<lparr>script = v, film = the (map_of ?fi k), normalized = k\<rparr>"
      by auto
    from kv have k: "k = normalize_title rt v"
      by (simp add: build_index_entry)
    from kv have cs: "dict_contains ?si k"
      by (force simp: dict_contains_def)
    from kv have gs: "dict_getitem ?si k = Inr v"
      using distinct_build_index [of rt scripts] by (simp add: dict_getitem_def)
    from dict_getitem_contains [OF c] obtain f where gf: "dict_getitem ?fi k = Inr f"
      and f: "(k, f) \<in> set ?fi"
      by blast
    from f have kf: "k = normalize_title rt f"
      by (simp add: build_index_entry)
    from gf have "the (map_of ?fi k) = f"
      by (simp add: dict_getitem_def split: option.splits)
    with m k kf c cs gs gf show ?thesis by simp
  qed
  obtain r where r: "create_matching_index rt films scripts = Inr r"
    by (rule create_matching_index_returns)
  then have ms: "matches r = ?ms"
    by (rule matches_eq)
  from each have "\<forall>m \<in> set (matches r).
           normalized m = normalize_title rt (script m)
         \<and> normalized m = normalize_title rt (film m)
         \<and> dict_contains ?si (normalized m)
         \<and> dict_contains ?fi (normalized m)
         \<and> dict_getitem ?si (normalized m) = Inr (script m)
         \<and> dict_getitem ?fi (normalized m) = Inr (film m)"
    unfolding ms by (rule ballI)
  with r show ?thesis by (intro exI conjI)
qed

theorem match_record_keys_witness:
  "create_matching_index sample_runtime [str ''Matrix-1999''] [str ''matrix''] =
     Inr \<lparr>matches =
            [\<lparr>script = str ''matrix'', film = str ''Matrix-1999'', normalized = str ''matrix''\<rparr>],
          unmatched_scripts = [], unmatched_films = [],
          stats = \<lparr>total_films = 1, total_scripts = 1, matches_found = 1, match_percentage = 100\<rparr>\<rparr>
   \<and> str ''matrix'' = normalize_title sample_runtime (str ''matrix'')
   \<and> str ''matrix'' = normalize_title sample_runtime (str ''Matrix-1999'')
   \<and> dict_contains (build_index sample_runtime [str ''matrix'']) (str ''matrix'')
   \<and> dict_contains (build_index sample_runtime [str ''Matrix-1999'']) (str ''matrix'')
   \<and> dict_getitem (build_index sample_runtime [str ''matrix'']) (str ''matrix'') = Inr (str ''matrix'')
   \<and> dict_getitem (build_index sample_runtime [str ''Matrix-1999'']) (str ''matrix'')
       = Inr (str ''Matrix-1999'')"
proof -
  let ?m = "\<lparr>script = str ''matrix'', film = str ''Matrix-1999'', normalized = str ''matrix''\<rparr>"
  have run: "create_matching_index sample_runtime [str ''Matrix-1999''] [str ''matrix''] =
     Inr \<lparr>matches = [?m], unmatched_scripts = [], unmatched_films = [],
          stats = \<lparr>total_films = 1, total_scripts = 1, matches_found = 1, match_percentage = 100\<rparr>\<rparr>"
    by (simp add: matrix_run sample_runtime_def)
  from match_record_keys [of sample_runtime "[str ''Matrix-1999'']" "[str ''matrix'']"]
  obtain r where r: "create_matching_index sample_runtime [str ''Matrix-1999''] [str ''matrix''] = Inr r"
    and all: "\<forall>m \<in> set (matches r).
           normalized m = normalize_title sample_runtime (script m)
         \<and> normalized m = normalize_title sample_runtime (film m)
         \<and> dict_contains (build_index sample_runtime [str ''matrix'']) (normalized m)
         \<and> dict_contains (build_index sample_runtime [str ''Matrix-1999'']) (normalized m)
         \<and> dict_getitem (build_index sample_runtime [str ''matrix'']) (normalized m) = Inr (script m)
         \<and> dict_getitem (build_index sample_runtime [str ''Matrix-1999'']) (normalized m) = Inr (film m)"
    by blast
  from r run have mem: "?m \<in> set (matches r)" by auto
  note bspec [OF all mem, unfolded match_record.select_convs]
  with run show ?thesis by (rule conjI)
qed

subsection \<open>Which identifiers are classified\<close>

lemma count_distinct: "distinct xs \<Longrightarrow> count_list xs x = (if x \<in> set xs then 1 else 0)"
  by (induction xs) auto

lemma count_build_index_values:
  "count_list (map snd (build_index rt xs)) x = (if keeps rt xs x then 1 else 0)"
  using count_distinct [OF distinct_build_index_values, of rt xs x]
  by (simp add: build_index_value_iff)

lemma count_filter_split:
  "count_list (map f (filter P xs)) x + count_list (map f (filter (\<lambda>y. \<not> P y) xs)) x
     = count_list (map f xs) x"
  by (induction xs) simp_all

lemma count_scripts:
  assumes "create_matching_index rt films scripts = Inr r"
  shows "count_list (map script (matches r)) x + count_list (unmatched_scripts r) x
     = (if keeps rt scripts x then 1 else 0)"
proof -
  let ?si = "build_index rt scripts"
  let ?P = "\<lambda>(k, v). dict_contains (build_index rt films) k"
  have "map script (matches r) = map snd (filter ?P ?si)"
    by (simp add: matches_eq [OF assms] case_prod_unfold comp_def)
  moreover have "unmatched_scripts r = map snd (filter (\<lambda>kv. \<not> ?P kv) ?si)"
    by (simp add: unmatched_scripts_eq [OF assms] case_prod_unfold)
  ultimately show ?thesis
    by (simp only: count_filter_split count_build_index_values)
qed

lemma count_matched_films:
  assumes "create_matching_index rt films scripts = Inr r"
  shows "count_list (map film (matches r)) f
     = (if keeps rt films f \<and> dict_contains (build_index rt scripts) (normalize_title rt f)
        then 1 else 0)"
proof -
  let ?fi = "build_index rt films" and ?si = "build_index rt scripts"
  let ?g = "\<lambda>k. the (map_of ?fi k)"
  let ?K = "filter (dict_contains ?fi) (map fst ?si)"
  have "?K = map fst (filter (dict_contains ?fi \<circ> fst) ?si)"
    by (rule filter_map)
  then have "map ?g ?K = map (\<lambda>kv. ?g (fst kv)) (filter (\<lambda>kv. dict_contains ?fi (fst kv)) ?si)"
    by (simp add: comp_def)
  moreover have "map film (matches r) =
      map (\<lambda>kv. ?g (fst kv)) (filter (\<lambda>kv. dict_contains ?fi (fst kv)) ?si)"
    by (simp add: matches_eq [OF assms] case_prod_unfold comp_def)
  ultimately have films: "map film (matches r) = map ?g ?K"
    by (simp only:)
  have entry: "(k, ?g k) \<in> set ?fi" if "k \<in> set ?K" for k
  proof -
    from that have "dict_contains ?fi k" by simp
    from dict_getitem_contains [OF this] show ?thesis
      by (auto simp: dict_getitem_def split: option.splits)
  qed
  have key: "normalize_title rt (?g k) = k" if "k \<in> set ?K" for k
    using entry [OF that] by (simp only: build_index_entry_iff)
  have "inj_on ?g (set ?K)"
  proof (rule inj_onI)
    fix k1 k2
    assume m1: "k1 \<in> set ?K" and m2: "k2 \<in> set ?K" and eq: "?g k1 = ?g k2"
    have "k1 = normalize_title rt (?g k1)"
      using key [OF m1] by (rule sym)
    also have "\<dots> = normalize_title rt (?g k2)"
      by (simp only: eq)
    also have "\<dots> = k2"
      by (rule key [OF m2])
    finally show "k1 = k2" .
  qed
  moreover have "distinct ?K"
    using distinct_build_index [of rt scripts] by simp
  ultimately have "distinct (map ?g ?K)"
    by (simp only: distinct_map)
  then have count: "count_list (map ?g ?K) f = (if f \<in> set (map ?g ?K) then 1 else 0)"
    by (rule count_distinct)
  have "f \<in> set (map ?g ?K) \<longleftrightarrow>
      keeps rt films f \<and> dict_contains ?si (normalize_title rt f)"
  proof
    assume "f \<in> set (map ?g ?K)"
    then obtain k where k: "k \<in> set ?K" and f: "f = ?g k" by auto
    from entry [OF k] f have "(k, f) \<in> set ?fi" by simp
    then have "k = normalize_title rt f" "keeps rt films f"
      by (simp_all add: build_index_entry_iff)
    moreover from k have "dict_contains ?si k"
      by (simp add: dict_contains_def)
    ultimately show "keeps rt films f \<and> dict_contains ?si (normalize_title rt f)"
      by simp
  next
    assume a: "keeps rt films f \<and> dict_contains ?si (normalize_title rt f)"
    then have e: "(normalize_title rt f, f) \<in> set ?fi"
      by (simp add: build_index_entry_iff)
    then have "map_of ?fi (normalize_title rt f) = Some f"
      using distinct_build_index [of rt films] by simp
    then have gf: "?g (normalize_title rt f) = f" by simp
    from e have "normalize_title rt f \<in> fst ` set ?fi"
      by (rule image_eqI [rotated]) simp
    with a have "normalize_title rt f \<in> set ?K"
      by (simp add: dict_contains_def)
    then have "?g (normalize_title rt f) \<in> ?g ` set ?K"
      by (rule imageI)
    then have "f \<in> ?g ` set ?K"
      by (simp only: gf)
    then show "f \<in> set (map ?g ?K)"
      by (simp only: set_map)
  qed
  with count films show ?thesis by simp
qed

lemma count_unmatched_films:
  assumes "create_matching_index rt films scripts = Inr r"
  shows "count_list (unmatched_films r) f
     = (if keeps rt films f \<and> \<not> dict_contains (build_index rt scripts) (normalize_title rt f)
        then 1 else 0)"
proof -
  let ?fi = "build_index rt films" and ?si = "build_index rt scripts"
  let ?U = "map snd (filter (\<lambda>(k, v). \<not> dict_contains ?si k) ?fi)"
  have "distinct ?U"
    using distinct_build_index_values [of rt films] by (rule distinct_map_filter)
  then have "count_list ?U f = (if f \<in> set ?U then 1 else 0)"
    by (rule count_distinct)
  moreover have "f \<in> set ?U \<longleftrightarrow>
      keeps rt films f \<and> \<not> dict_contains ?si (normalize_title rt f)"
  proof
    assume "f \<in> set ?U"
    then obtain k where "(k, f) \<in> set ?fi" and "\<not> dict_contains ?si k" by auto
    then show "keeps rt films f \<and> \<not> dict_contains ?si (normalize_title rt f)"
      by (simp add: build_index_entry_iff)
  next
    assume "keeps rt films f \<and> \<not> dict_contains ?si (normalize_title rt f)"
    then have "(normalize_title rt f, f) \<in> set ?fi"
      and "\<not> dict_contains ?si (normalize_title rt f)"
      by (simp_all add: build_index_entry_iff)
    then have "(normalize_title rt f, f) \<in> set (filter (\<lambda>(k, v). \<not> dict_contains ?si k) ?fi)"
      by simp
    then have "snd (normalize_title rt f, f) \<in> snd ` set (filter (\<lambda>(k, v). \<not> dict_contains ?si k) ?fi)"
      by (rule imageI)
    then show "f \<in> set ?U"
      by (simp only: set_map snd_conv)
  qed
  ultimately show ?thesis
    by (simp only: unmatched_films_eq [OF assms])
qed

text \<open>
  Claim C1, as amended. The matcher classifies what the two lookup mappings keep. A
  script identifier kept by the script mapping is the script of exactly one match
  record or occurs exactly once in \<open>unmatched_scripts\<close>, and not both; a film identifier
  kept by the film mapping is the film of exactly one match record or occurs exactly
  once in \<open>unmatched_films\<close>, and not both. Every other string, so also an identifier
  that a later one with the same key has overwritten, occurs in neither place.
\<close>

theorem kept_classified_once:
  "\<exists>r. create_matching_index rt films scripts = Inr r
     \<and> (\<forall>x. count_list (map script (matches r)) x + count_list (unmatched_scripts r) x
            = (if keeps rt scripts x then 1 else 0))
     \<and> (\<forall>f. count_list (map film (matches r)) f + count_list (unmatched_films r) f
            = (if keeps rt films f then 1 else 0))"
proof -
  obtain r where r: "create_matching_index rt films scripts = Inr r"
    by (rule create_matching_index_returns)
  have "count_list (map film (matches r)) f + count_list (unmatched_films r) f
      = (if keeps rt films f then 1 else 0)" for f
    by (simp add: count_matched_films [OF r] count_unmatched_films [OF r])
  with r count_scripts [OF r] show ?thesis by blast
qed

theorem kept_classified_once_witness:
  "keeps sample_runtime [str ''Matrix'', str ''matrix'', str ''Heat''] (str ''matrix'')
   \<and> \<not> keeps sample_runtime [str ''Matrix'', str ''matrix'', str ''Heat''] (str ''Matrix'')
   \<and> keeps sample_runtime [str ''Matrix-1999'', str ''Matrix-2003'', str ''Alien-1979'']
        (str ''Alien-1979'')
   \<and> (\<exists>r. create_matching_index sample_runtime
         [str ''Matrix-1999'', str ''Matrix-2003'', str ''Alien-1979'']
         [str ''Matrix'', str ''matrix'', str ''Heat''] = Inr r
      \<and> count_list (map script (matches r)) (str ''matrix'')
          + count_list (unmatched_scripts r) (str ''matrix'') = 1
      \<and> count_list (map script (matches r)) (str ''Matrix'')
          + count_list (unmatched_scripts r) (str ''Matrix'') = 0
      \<and> count_list (map film (matches r)) (str ''Alien-1979'')
          + count_list (unmatched_films r) (str ''Alien-1979'') = 1)"
proof -
  let ?films = "[str ''Matrix-1999'', str ''Matrix-2003'', str ''Alien-1979'']"
  let ?scripts = "[str ''Matrix'', str ''matrix'', str ''Heat'']"
  have k1: "keeps sample_runtime ?scripts (str ''matrix'')"
    by code_simp
  have k2: "\<not> keeps sample_runtime ?scripts (str ''Matrix'')"
    by code_simp
  have k3: "keeps sample_runtime ?films (str ''Alien-1979'')"
    by code_simp
  from kept_classified_once [of sample_runtime ?films ?scripts]
  obtain r where r: "create_matching_index sample_runtime ?films ?scripts = Inr r"
    and s: "\<And>x. count_list (map script (matches r)) x + count_list (unmatched_scripts r) x
            = (if keeps sample_runtime ?scripts x then 1 else 0)"
    and f: "\<And>f. count_list (map film (matches r)) f + count_list (unmatched_films r) f
            = (if keeps sample_runtime ?films f then 1 else 0)"
    by blast
  from s [of "str ''matrix''"] s [of "str ''Matrix''"] f [of "str ''Alien-1979''"] k1 k2 k3
  have "count_list (map script (matches r)) (str ''matrix'')
          + count_list (unmatched_scripts r) (str ''matrix'') = 1
      \<and> count_list (map script (matches r)) (str ''Matrix'')
          + count_list (unmatched_scripts r) (str ''Matrix'') = 0
      \<and> count_list (map film (matches r)) (str ''Alien-1979'')
          + count_list (unmatched_films r) (str ''Alien-1979'') = 1"
    by (simp only: if_True if_False simp_thms)
  with k1 k2 k3 r show ?thesis by blast
qed

text \<open>
  Claim C1 as stated fails when two identifiers of a list share a key. Of the scripts
  \<^verbatim>\<open>Matrix\<close> and \<^verbatim>\<open>matrix\<close> the mapping keeps the second, and of the films
  \<^verbatim>\<open>Matrix-1999\<close> and \<^verbatim>\<open>Matrix-2003\<close> the second: the script \<^verbatim>\<open>Matrix\<close> and the film
  \<^verbatim>\<open>Matrix-1999\<close> are in no match record and in no list of unmatched identifiers.
\<close>

theorem classification_counterexample:
  "create_matching_index sample_runtime
     [str ''Matrix-1999'', str ''Matrix-2003''] [str ''Matrix'', str ''matrix'']
   = Inr \<lparr>matches =
            [\<lparr>script = str ''matrix'', film = str ''Matrix-2003'', normalized = str ''matrix''\<rparr>],
          unmatched_scripts = [],
          unmatched_films = [],
          stats = \<lparr>total_films = 2, total_scripts = 2, matches_found = 1,
                   match_percentage = 50\<rparr>\<rparr>
   \<and> str ''Matrix'' \<noteq> str ''matrix''
   \<and> str ''Matrix-1999'' \<noteq> str ''Matrix-2003''"
  by code_simp

subsection \<open>Counting\<close>

lemma length_filter_keys:
  "distinct (map fst d) \<Longrightarrow>
     length (filter (\<lambda>(k, v). P k) d) = card {k \<in> fst ` set d. P k}"
proof -
  assume dist: "distinct (map fst d)"
  have "length (filter (\<lambda>(k, v). P k) d) = length (map fst (filter (P \<circ> fst) d))"
    by (simp add: case_prod_unfold comp_def)
  also have "\<dots> = length (filter P (map fst d))"
    by (simp only: filter_map)
  also have "\<dots> = card ({k. P k} \<inter> set (map fst d))"
    using dist by (rule distinct_length_filter)
  also have "{k. P k} \<inter> set (map fst d) = {k \<in> fst ` set d. P k}"
    by auto
  finally show ?thesis .
qed

text \<open>
  Claim C2. For every film list and script list the matcher returns, and the number of
  match records plus the number of unmatched scripts is the size of the script lookup
  mapping, which is the number of distinct normalized script keys.
\<close>

theorem script_count_identity:
  "\<exists>r. create_matching_index rt films scripts = Inr r
     \<and> length (matches r) + length (unmatched_scripts r) = length (build_index rt scripts)
     \<and> length (build_index rt scripts) = card (normalize_title rt ` set scripts)"
proof -
  let ?si = "build_index rt scripts"
  let ?P = "\<lambda>(k, v). dict_contains (build_index rt films) k"
  have "length (filter ?P ?si) + length (filter (\<lambda>kv. \<not> ?P kv) ?si) = length ?si"
    by (rule sum_length_filter_compl)
  then show ?thesis
    by (simp add: create_matching_index_eq length_build_index case_prod_unfold)
qed

theorem script_count_identity_witness:
  "\<exists>r. create_matching_index sample_runtime
         [str ''Matrix-1999'', str ''Matrix-2003'', str ''Alien-1979'']
         [str ''Matrix'', str ''matrix'', str ''Heat''] = Inr r
     \<and> length (matches r) + length (unmatched_scripts r) = 2
     \<and> card (normalize_title sample_runtime ` set [str ''Matrix'', str ''matrix'', str ''Heat'']) = 2"
proof -
  let ?films = "[str ''Matrix-1999'', str ''Matrix-2003'', str ''Alien-1979'']"
  let ?scripts = "[str ''Matrix'', str ''matrix'', str ''Heat'']"
  have n: "length (build_index sample_runtime ?scripts) = 2"
    by (simp only: example_script_index) simp
  from script_count_identity [of sample_runtime ?films ?scripts]
  obtain r where "create_matching_index sample_runtime ?films ?scripts = Inr r"
    and "length (matches r) + length (unmatched_scripts r) = length (build_index sample_runtime ?scripts)"
    and "length (build_index sample_runtime ?scripts) = card (normalize_title sample_runtime ` set ?scripts)"
    by blast
  with n show ?thesis by (intro exI [of _ r]) simp
qed

text \<open>
  Claim C9. The film side: the number of match records plus the number of unmatched
  films is the size of the film lookup mapping, which is the number of distinct
  normalized film keys.
\<close>

theorem film_count_identity:
  "\<exists>r. create_matching_index rt films scripts = Inr r
     \<and> length (matches r) + length (unmatched_films r) = length (build_index rt films)
     \<and> length (build_index rt films) = card (normalize_title rt ` set films)"
proof -
  let ?fi = "build_index rt films" and ?si = "build_index rt scripts"
  let ?F = "fst ` set ?fi" and ?S = "fst ` set ?si"
  have m: "length (filter (\<lambda>(k, v). dict_contains ?fi k) ?si) = card (?S \<inter> ?F)"
  proof -
    have "{k \<in> ?S. dict_contains ?fi k} = ?S \<inter> ?F"
      by (auto simp: dict_contains_def)
    then show ?thesis
      using length_filter_keys [OF distinct_build_index, of "dict_contains ?fi" rt scripts]
      by simp
  qed
  have u: "length (filter (\<lambda>(k, v). \<not> dict_contains ?si k) ?fi) = card (?F - ?S)"
  proof -
    have "{k \<in> ?F. \<not> dict_contains ?si k} = ?F - ?S"
      by (auto simp: dict_contains_def)
    then show ?thesis
      using length_filter_keys [OF distinct_build_index, of "\<lambda>k. \<not> dict_contains ?si k" rt films]
      by simp
  qed
  have "card (?S \<inter> ?F) + card (?F - ?S) = card ?F"
  proof -
    have "card ((?F \<inter> ?S) \<union> (?F - ?S)) = card (?F \<inter> ?S) + card (?F - ?S)"
      by (rule card_Un_disjoint) auto
    moreover have "(?F \<inter> ?S) \<union> (?F - ?S) = ?F" by auto
    ultimately show ?thesis by (simp add: Int_commute)
  qed
  moreover have "card ?F = length ?fi"
    by (simp add: length_build_index keys_build_index)
  ultimately show ?thesis
    using m u by (simp add: create_matching_index_eq length_build_index)
qed

theorem film_count_identity_witness:
  "\<exists>r. create_matching_index sample_runtime
         [str ''Matrix-1999'', str ''Matrix-2003'', str ''Alien-1979'']
         [str ''Matrix'', str ''matrix'', str ''Heat''] = Inr r
     \<and> length (matches r) + length (unmatched_films r) = 2
     \<and> card (normalize_title sample_runtime `
          set [str ''Matrix-1999'', str ''Matrix-2003'', str ''Alien-1979'']) = 2"
proof -
  let ?films = "[str ''Matrix-1999'', str ''Matrix-2003'', str ''Alien-1979'']"
  let ?scripts = "[str ''Matrix'', str ''matrix'', str ''Heat'']"
  have n: "length (build_index sample_runtime ?films) = 2"
    by (simp only: example_film_index) simp
  from film_count_identity [of sample_runtime ?films ?scripts]
  obtain r where "create_matching_index sample_runtime ?films ?scripts = Inr r"
    and "length (matches r) + length (unmatched_films r) = length (build_index sample_runtime ?films)"
    and "length (build_index sample_runtime ?films) = card (normalize_title sample_runtime ` set ?films)"
    by blast
  with n show ?thesis by (intro exI [of _ r]) simp
qed

subsection \<open>The statistics\<close>

text \<open>
  Claim C4. The matcher returns a result on every input, so the division never raises:
  with no scripts the percentage is 0 and nothing is divided; with scripts it is the
  float quotient of the number of matches by the number of scripts, times 100.
\<close>

theorem match_percentage_guarded:
  "\<exists>r. create_matching_index rt films scripts = Inr r
     \<and> matches_found (stats r) = length (matches r)
     \<and> total_scripts (stats r) = length scripts
     \<and> match_percentage (stats r) =
         (if scripts = [] then 0
          else fround rt (fround rt (of_nat (length (matches r)) / of_nat (length scripts)) * 100))"
  by (simp add: create_matching_index_eq)

theorem match_percentage_guarded_witness:
  "(\<exists>r. create_matching_index sample_runtime [str ''Matrix-1999''] [] = Inr r
      \<and> match_percentage (stats r) = 0)
   \<and> (\<exists>r. create_matching_index sample_runtime [str ''Matrix-1999''] [str ''matrix''] = Inr r
      \<and> match_percentage (stats r) = 1 / 1 * 100)"
proof -
  from match_percentage_guarded [of sample_runtime "[str ''Matrix-1999'']" "[]"]
  have a: "\<exists>r. create_matching_index sample_runtime [str ''Matrix-1999''] [] = Inr r
      \<and> match_percentage (stats r) = 0"
    by auto
  from match_percentage_guarded [of sample_runtime "[str ''Matrix-1999'']" "[str ''matrix'']"]
  obtain r where r: "create_matching_index sample_runtime [str ''Matrix-1999''] [str ''matrix''] = Inr r"
    and l: "matches_found (stats r) = length (matches r)"
    and p: "match_percentage (stats r) =
      fround sample_runtime (fround sample_runtime (of_nat (length (matches r)) / of_nat (length [str ''matrix''])) * 100)"
    by auto
  have "length (matches r) = 1"
    using r by (auto simp: matrix_run)
  with p have "match_percentage (stats r) = 1 / 1 * 100"
    by (simp add: sample_runtime_def)
  with r a show ?thesis by blast
qed

text \<open>
  Claim C10. The percentage lies between 0 and 100, since there are at most as many
  match records as entries of the script index, and at most as many of those as
  scripts. Rounding has to be monotone and to leave 0, 1 and 100 alone, as rounding to
  the nearest float does.
\<close>

theorem match_percentage_bounds:
  assumes "float_rounding rt"
  shows "\<exists>r. create_matching_index rt films scripts = Inr r
     \<and> length (matches r) \<le> length (build_index rt scripts)
     \<and> length (build_index rt scripts) \<le> length scripts
     \<and> 0 \<le> match_percentage (stats r) \<and> match_percentage (stats r) \<le> 100"
proof -
  let ?n = "length (filter (\<lambda>(k, v). dict_contains (build_index rt films) k) (build_index rt scripts))"
  let ?p = "if scripts = [] then 0
            else fround rt (fround rt (of_nat ?n / of_nat (length scripts)) * 100)"
  from assms have mono: "\<And>x y. x \<le> y \<Longrightarrow> fround rt x \<le> fround rt y"
    and exact: "fround rt 0 = 0" "fround rt 1 = 1" "fround rt 100 = 100"
    by (simp_all add: float_rounding_def)
  have n_le: "?n \<le> length (build_index rt scripts)"
    by (rule length_filter_le)
  have idx_le: "length (build_index rt scripts) \<le> length scripts"
    by (rule length_build_index_le)
  have bounds: "0 \<le> ?p \<and> ?p \<le> 100"
  proof (cases "scripts = []")
    case True
    then show ?thesis by simp
  next
    case False
    let ?q = "(of_nat ?n :: rat) / of_nat (length scripts)"
    from False have pos: "0 < (of_nat (length scripts) :: rat)" by simp
    have "0 \<le> ?q" by simp
    moreover have "?n \<le> length scripts"
      using n_le idx_le by (rule order_trans)
    then have "?q \<le> 1"
      using pos by (simp add: divide_le_eq)
    ultimately have q: "0 \<le> fround rt ?q" "fround rt ?q \<le> 1"
      using mono [of 0 ?q] mono [of ?q 1] exact by simp_all
    then have "0 \<le> fround rt ?q * 100" "fround rt ?q * 100 \<le> 100"
      by simp_all
    then have "0 \<le> fround rt (fround rt ?q * 100)" "fround rt (fround rt ?q * 100) \<le> 100"
      using mono [of 0 "fround rt ?q * 100"] mono [of "fround rt ?q * 100" 100] exact by simp_all
    with False show ?thesis by simp
  qed
  show ?thesis
    using n_le idx_le bounds by (simp add: create_matching_index_eq)
qed

theorem match_percentage_bounds_witness:
  "float_rounding sample_runtime
   \<and> (\<exists>r. create_matching_index sample_runtime
         [str ''Matrix-1999'', str ''Matrix-2003'', str ''Alien-1979'']
         [str ''Matrix'', str ''matrix'', str ''Heat''] = Inr r
      \<and> match_percentage (stats r) = 100 / 3
      \<and> 0 \<le> match_percentage (stats r) \<and> match_percentage (stats r) \<le> 100)"
proof -
  let ?films = "[str ''Matrix-1999'', str ''Matrix-2003'', str ''Alien-1979'']"
  let ?scripts = "[str ''Matrix'', str ''matrix'', str ''Heat'']"
  have fr: "float_rounding sample_runtime"
    by (rule float_rounding_sample)
  from match_percentage_bounds [OF fr, of ?films ?scripts]
  obtain r where r: "create_matching_index sample_runtime ?films ?scripts = Inr r"
    and b: "0 \<le> match_percentage (stats r)" "match_percentage (stats r) \<le> 100"
    by blast
  from r have "match_percentage (stats r) = 100 / 3"
    by (auto simp: example_run)
  with fr r b show ?thesis by blast
qed

subsection \<open>The report\<close>

text \<open>
  Claim C5. Whatever results the report is made from, each of its three arrays
  \<open>matches\<close>, \<open>sample_unmatched_scripts\<close> and \<open>sample_unmatched_films\<close> has at most
  ten entries.
\<close>

theorem report_capped:
  "length (report_matches (generate_report cwd res)) \<le> 10
   \<and> length (sample_unmatched_scripts (generate_report cwd res)) \<le> 10
   \<and> length (sample_unmatched_films (generate_report cwd res)) \<le> 10"
  by (simp add: generate_report_def)

subsection \<open>The example of the specification\<close>

text \<open>
  Claim C6. With the films \<^verbatim>\<open>["Matrix-1999"]\<close> and the scripts \<^verbatim>\<open>["matrix"]\<close> the matcher
  returns one match record, with script \<^verbatim>\<open>matrix\<close>, film \<^verbatim>\<open>Matrix-1999\<close> and normalized
  key \<^verbatim>\<open>matrix\<close>, and two empty lists of unmatched identifiers. Both titles are ASCII,
  so this holds for every runtime.
\<close>

theorem matrix_example:
  "create_matching_index rt [str ''Matrix-1999''] [str ''matrix''] =
     Inr \<lparr>matches =
            [\<lparr>script = str ''matrix'', film = str ''Matrix-1999'', normalized = str ''matrix''\<rparr>],
          unmatched_scripts = [],
          unmatched_films = [],
          stats = \<lparr>total_films = 1, total_scripts = 1, matches_found = 1,
                   match_percentage = fround rt (fround rt 1 * 100)\<rparr>\<rparr>"
  by (rule matrix_run)

end
